theory Spec2Isabelle
  imports Complex_Main "HOL-Library.Word" "HOL-Library.Code_Target_Nat"
begin

section \<open>The scoreboard extractor of the Tracker.gg match scraper\<close>

text \<open>
  The repository holds two copies of one script. Each opens a match page in a headless
  browser and runs one callback inside the page (the argument of \<^verbatim>\<open>page.evaluate\<close>), which
  reads the document and returns the match result. The copy with a command-line target
  identity is embedded here; the other copy is the same callback with the target fixed to a
  constant string. Browser start-up, navigation and printing are outside the embedding.
\<close>

subsection \<open>JavaScript strings and numbers\<close>

text \<open>
  A JavaScript string is a sequence of 16-bit code units. String literals of the source are
  written through \<open>js\<close>, which maps each ASCII character to its code unit.
\<close>

type_synonym code_unit = "16 word"
type_synonym jsstring = "code_unit list"

definition js :: "string \<Rightarrow> jsstring" where
  "js s = map of_char s"

text \<open>
  \<^verbatim>\<open>WhiteSpace\<close> and \<^verbatim>\<open>LineTerminator\<close> of ECMAScript: what \<^verbatim>\<open>trim\<close>, \<^verbatim>\<open>parseInt\<close> and
  \<^verbatim>\<open>parseFloat\<close> skip.
\<close>

definition is_ws :: "code_unit \<Rightarrow> bool" where
  "is_ws c \<longleftrightarrow>
     c = 0x9 \<or> c = 0xA \<or> c = 0xB \<or> c = 0xC \<or> c = 0xD \<or> c = 0x20 \<or> c = 0xA0 \<or>
     c = 0x1680 \<or> (0x2000 \<le> c \<and> c \<le> 0x200A) \<or> c = 0x2028 \<or> c = 0x2029 \<or>
     c = 0x202F \<or> c = 0x205F \<or> c = 0x3000 \<or> c = 0xFEFF"

definition trimStart :: "jsstring \<Rightarrow> jsstring" where
  "trimStart s = dropWhile is_ws s"

definition trim :: "jsstring \<Rightarrow> jsstring" where
  "trim s = rev (dropWhile is_ws (rev (dropWhile is_ws s)))"

text \<open>\<^verbatim>\<open>xs[i]\<close>: \<^verbatim>\<open>undefined\<close> (here \<open>None\<close>) when \<open>i\<close> is out of range.\<close>

definition index :: "'a list \<Rightarrow> nat \<Rightarrow> 'a option" where
  "index xs i = (if i < length xs then Some (xs ! i) else None)"

text \<open>
  \<^verbatim>\<open>x || d\<close> where \<open>x\<close> is a string or \<^verbatim>\<open>undefined\<close>: the empty string and \<^verbatim>\<open>undefined\<close> are
  falsy.
\<close>

definition or_str :: "jsstring option \<Rightarrow> jsstring \<Rightarrow> jsstring" where
  "or_str x d = (case x of None \<Rightarrow> d | Some s \<Rightarrow> if s = [] then d else s)"

text \<open>\<^verbatim>\<open>s.endsWith('#')\<close>, \<^verbatim>\<open>s.startsWith('#')\<close>, \<^verbatim>\<open>s.slice(0, -1)\<close> and \<^verbatim>\<open>s.slice(1)\<close>.\<close>

definition endsWith :: "jsstring \<Rightarrow> code_unit \<Rightarrow> bool" where
  "endsWith s c \<longleftrightarrow> s \<noteq> [] \<and> last s = c"

definition startsWith :: "jsstring \<Rightarrow> code_unit \<Rightarrow> bool" where
  "startsWith s c \<longleftrightarrow> s \<noteq> [] \<and> hd s = c"

definition slice_0_m1 :: "jsstring \<Rightarrow> jsstring" where
  "slice_0_m1 s = take (length s - 1) s"

definition slice_1 :: "jsstring \<Rightarrow> jsstring" where
  "slice_1 s = drop 1 s"

text \<open>\<^verbatim>\<open>val.replace(/[+,%]/g, "")\<close>: every plus sign, comma and percent sign is removed.\<close>

definition strip_marks :: "jsstring \<Rightarrow> jsstring" where
  "strip_marks val = filter (\<lambda>c. c \<noteq> 0x2B \<and> c \<noteq> 0x2C \<and> c \<noteq> 0x25) val"

text \<open>
  A JavaScript number is a double: \<^verbatim>\<open>NaN\<close>, an infinity, negative zero, or a finite value,
  kept here as the rational it is exactly (\<open>Finite 0\<close> is positive zero).
\<close>

datatype number = NaN | PosInfinity | NegInfinity | NegZero | Finite rat

text \<open>
  The double nearest to the non-negative fraction \<open>n / d\<close> (with \<open>d > 0\<close>), ties to the even
  significand, given the sign separately: what ECMAScript calls the Number value for a
  mathematical value. \<open>bitlen n\<close> is the number of binary digits of \<open>n\<close>, \<open>floor_log2 n d\<close>
  is the exponent \<open>k\<close> with \<open>2^k \<le> n / d < 2^(k + 1)\<close>, and the significand \<open>m\<close> is
  \<open>n / d\<close> scaled by \<open>2^(- e)\<close> and rounded to an integer, where \<open>e = k - 52\<close> for a normal
  double and \<open>- 1074\<close> for a subnormal one. A result of \<open>2^1024\<close> or more is an infinity.
\<close>

fun bitlen :: "nat \<Rightarrow> nat" where
  "bitlen n = (if n = 0 then 0 else Suc (bitlen (n div 2)))"

declare bitlen.simps [simp del]

definition round_half_even :: "nat \<Rightarrow> nat \<Rightarrow> nat" where
  "round_half_even n d =
     (let q = n div d; r = n mod d
      in if d < 2 * r \<or> (2 * r = d \<and> odd q) then q + 1 else q)"

definition floor_log2 :: "nat \<Rightarrow> nat \<Rightarrow> int" where
  "floor_log2 n d =
     (let c = int (bitlen n) - int (bitlen d)
      in if (if 0 \<le> c then d * 2 ^ nat c \<le> n else d \<le> n * 2 ^ nat (- c)) then c
         else c - 1)"

definition nearest_double :: "bool \<Rightarrow> nat \<Rightarrow> nat \<Rightarrow> number" where
  "nearest_double neg n d =
     (let e = max (floor_log2 n d - 52) (- 1074);
          m = (if 0 \<le> e then round_half_even n (d * 2 ^ nat e)
               else round_half_even (n * 2 ^ nat (- e)) d);
          v = (if 0 \<le> e then of_nat (m * 2 ^ nat e) else of_nat m / 2 ^ nat (- e) :: rat)
      in if m = 0 then (if neg then NegZero else Finite 0)
         else if 2 ^ 1024 \<le> v then (if neg then NegInfinity else PosInfinity)
         else Finite (if neg then - v else v))"

definition to_number :: "rat \<Rightarrow> number" where
  "to_number q =
     (case quotient_of q of (p, d) \<Rightarrow> nearest_double (p < 0) (nat \<bar>p\<bar>) (nat d))"

text \<open>\<^verbatim>\<open>x + y\<close> on numbers: the exact sum of two finite values, rounded to a double.\<close>

fun js_add :: "number \<Rightarrow> number \<Rightarrow> number" where
  "js_add NaN y = NaN"
| "js_add x NaN = NaN"
| "js_add PosInfinity NegInfinity = NaN"
| "js_add NegInfinity PosInfinity = NaN"
| "js_add PosInfinity y = PosInfinity"
| "js_add x PosInfinity = PosInfinity"
| "js_add NegInfinity y = NegInfinity"
| "js_add x NegInfinity = NegInfinity"
| "js_add NegZero y = y"
| "js_add x NegZero = x"
| "js_add (Finite a) (Finite b) = to_number (a + b)"

text \<open>\<^verbatim>\<open>x > y\<close> on numbers: false when either side is \<^verbatim>\<open>NaN\<close>; the two zeros are equal.\<close>

fun js_gt :: "number \<Rightarrow> number \<Rightarrow> bool" where
  "js_gt NaN y = False"
| "js_gt x NaN = False"
| "js_gt x PosInfinity = False"
| "js_gt PosInfinity y = True"
| "js_gt NegInfinity y = False"
| "js_gt x NegInfinity = True"
| "js_gt NegZero NegZero = False"
| "js_gt NegZero (Finite b) = (0 > b)"
| "js_gt (Finite a) NegZero = (a > 0)"
| "js_gt (Finite a) (Finite b) = (a > b)"

text \<open>A number that is not below zero.\<close>

fun is_nonneg :: "number \<Rightarrow> bool" where
  "is_nonneg NaN = False"
| "is_nonneg PosInfinity = True"
| "is_nonneg NegInfinity = False"
| "is_nonneg NegZero = True"
| "is_nonneg (Finite v) = (0 \<le> v)"

text \<open>\<^verbatim>\<open>x || 0\<close> for a number: \<^verbatim>\<open>NaN\<close> and the two zeros are falsy.\<close>

definition or_zero :: "number \<Rightarrow> number" where
  "or_zero x =
     (case x of NaN \<Rightarrow> Finite 0 | NegZero \<Rightarrow> Finite 0
      | Finite v \<Rightarrow> if v = 0 then Finite 0 else Finite v | y \<Rightarrow> y)"

definition digit_value :: "code_unit \<Rightarrow> nat option" where
  "digit_value c =
     (if 0x30 \<le> c \<and> c \<le> 0x39 then Some (unat c - 48)
      else if 0x61 \<le> c \<and> c \<le> 0x7A then Some (unat c - 87)
      else if 0x41 \<le> c \<and> c \<le> 0x5A then Some (unat c - 55)
      else None)"

definition is_radix_digit :: "nat \<Rightarrow> code_unit \<Rightarrow> bool" where
  "is_radix_digit R c = (case digit_value c of None \<Rightarrow> False | Some d \<Rightarrow> d < R)"

definition digits_value :: "nat \<Rightarrow> jsstring \<Rightarrow> nat" where
  "digits_value R z =
     foldl (\<lambda>a c. a * R + (case digit_value c of None \<Rightarrow> 0 | Some d \<Rightarrow> d)) 0 z"

text \<open>
  \<^verbatim>\<open>parseInt(string, radix)\<close>, with \<open>radix = 0\<close> standing for an omitted radix: leading white
  space is skipped, one sign is read, a \<^verbatim>\<open>0x\<close> prefix switches an omitted (or 16) radix to
  16, and the longest run of digits of the radix is read. No digit gives \<^verbatim>\<open>NaN\<close>; else
  the result is the double nearest to the integer the digits denote, with the sign.
  (ECMAScript allows an implementation to approximate a decimal integer of more than twenty
  significant digits; the value here is the correctly rounded one.)
\<close>

definition parseInt :: "jsstring \<Rightarrow> nat \<Rightarrow> number" where
  "parseInt string radix =
     (let S = trimStart string;
          neg = startsWith S 0x2D;
          S1 = (if startsWith S 0x2B \<or> startsWith S 0x2D then tl S else S);
          hex = ((radix = 0 \<or> radix = 16) \<and> (take 2 S1 = js ''0x'' \<or> take 2 S1 = js ''0X''));
          S2 = (if hex then drop 2 S1 else S1);
          R = (if hex then 16 else if radix = 0 then 10 else radix);
          Z = takeWhile (is_radix_digit R) S2
      in if radix \<noteq> 0 \<and> (radix < 2 \<or> 36 < radix) then NaN
         else if Z = [] then NaN
         else nearest_double neg (digits_value R Z) 1)"

definition is_digit :: "code_unit \<Rightarrow> bool" where
  "is_digit c \<longleftrightarrow> 0x30 \<le> c \<and> c \<le> 0x39"

text \<open>
  \<^verbatim>\<open>parseFloat(string)\<close>: after leading white space, the longest prefix that is a
  \<^verbatim>\<open>StrDecimalLiteral\<close>: a sign, then \<^verbatim>\<open>Infinity\<close>, or digits with an optional fraction
  (at least one digit on one side of the point) and an optional exponent, which counts only
  when it has a digit. The result is the double nearest to the decimal value read: the
  digits \<open>M\<close> of both sides of the point, divided by ten for each digit of the fraction and
  scaled by the power of ten \<open>E\<close> of the exponent.
\<close>

definition parseFloat :: "jsstring \<Rightarrow> number" where
  "parseFloat string =
     (let S = trimStart string;
          neg = startsWith S 0x2D;
          U = (if startsWith S 0x2B \<or> startsWith S 0x2D then tl S else S);
          ip = takeWhile is_digit U;
          r1 = dropWhile is_digit U;
          dot = startsWith r1 0x2E;
          fp = (if dot then takeWhile is_digit (tl r1) else []);
          r2 = (if dot then dropWhile is_digit (tl r1) else r1);
          r3 = (if startsWith r2 0x65 \<or> startsWith r2 0x45 then tl r2 else []);
          eneg = startsWith r3 0x2D;
          r4 = (if startsWith r3 0x2B \<or> startsWith r3 0x2D then tl r3 else r3);
          ed = takeWhile is_digit r4;
          M = digits_value 10 (ip @ fp);
          E = digits_value 10 ed
      in if take 8 U = js ''Infinity'' then (if neg then NegInfinity else PosInfinity)
         else if ip = [] \<and> fp = [] then NaN
         else if eneg then nearest_double neg M (10 ^ (length fp + E))
         else nearest_double neg (M * 10 ^ E) (10 ^ length fp))"

subsection \<open>Errors\<close>

text \<open>
  The only exception the callback can raise is the \<^verbatim>\<open>TypeError\<close> of calling a method on
  \<^verbatim>\<open>undefined\<close>. A raise is the left injection; \<open>thenE\<close> runs the rest of a computation
  when the first part did not raise.
\<close>

datatype error = TypeError

definition thenE :: "error + 'a \<Rightarrow> ('a \<Rightarrow> error + 'b) \<Rightarrow> error + 'b" where
  "thenE m f = (case m of Inl e \<Rightarrow> Inl e | Inr x \<Rightarrow> f x)"

text \<open>
  The two cell parsers. Their argument is \<^verbatim>\<open>cells[i]\<close>, which is \<^verbatim>\<open>undefined\<close> when the row
  has no such cell, and \<^verbatim>\<open>val.replace\<close> raises on \<^verbatim>\<open>undefined\<close>.
\<close>

definition toFloat :: "jsstring option \<Rightarrow> error + number" where
  "toFloat val =
     (case val of None \<Rightarrow> Inl TypeError
      | Some v \<Rightarrow> Inr (or_zero (parseFloat (strip_marks v))))"

definition toInt :: "jsstring option \<Rightarrow> error + number" where
  "toInt val =
     (case val of None \<Rightarrow> Inl TypeError
      | Some v \<Rightarrow> Inr (or_zero (parseInt (strip_marks v) 10)))"

subsection \<open>The document snapshot\<close>

text \<open>
  What the callback reads of the page. A scoreboard row (\<^verbatim>\<open>.st-content__item\<close>) gives the
  text of its first \<^verbatim>\<open>.trn-ign__username\<close> and \<^verbatim>\<open>.trn-ign__discriminator\<close> elements, the
  \<^verbatim>\<open>alt\<close> attribute of its agent image and of its rank image (each \<open>None\<close> when the selector
  matches nothing), and the texts of its \<^verbatim>\<open>.st-content__item-value\<close> cells in document
  order. The document gives the texts of the header labels and header values, the rows, and
  the texts of the two team-coloured header values.
\<close>

record row =
  username :: "jsstring option"
  discriminator :: "jsstring option"
  agent_alt :: "jsstring option"
  rank_alt :: "jsstring option"
  item_values :: "jsstring list"

record document =
  header_labels :: "jsstring list"
  header_values :: "jsstring list"
  content_items :: "row list"
  team1_value :: "jsstring option"
  team2_value :: "jsstring option"

subsection \<open>The result\<close>

record player =
  name :: jsstring
  agent :: jsstring
  team :: jsstring
  tier :: jsstring
  score :: number
  kills :: number
  deaths :: number
  assists :: number
  plus_minus :: jsstring
  kd_ratio :: number
  dda :: jsstring
  adr :: number
  hs_pct :: number
  kast_pct :: jsstring
  fk :: number
  fd :: number
  mk :: number

record match_result =
  map_name :: jsstring
  mode :: jsstring
  team1_score :: number
  team2_score :: number
  round_count :: number
  won :: bool
  players :: "player list"

subsection \<open>The callback\<close>

definition knownMaps :: "jsstring list" where
  "knownMaps =
     [js ''Ascent'', js ''Bind'', js ''Breeze'', js ''Fracture'', js ''Haven'', js ''Icebox'',
      js ''Lotus'', js ''Pearl'', js ''Split'', js ''Sunset'', js ''Deadlock'', js ''Abyss'']"

text \<open>\<^verbatim>\<open>knownMaps.includes(mapText) ? mapText : "Unknown"\<close>\<close>

definition map_of_text :: "jsstring \<Rightarrow> jsstring" where
  "map_of_text mapText = (if mapText \<in> set knownMaps then mapText else js ''Unknown'')"

text \<open>\<^verbatim>\<open>element?.textContent.trim() || ""\<close>\<close>

definition raw_text :: "jsstring option \<Rightarrow> jsstring" where
  "raw_text el = or_str (map_option trim el) []"

definition cleanName :: "jsstring \<Rightarrow> jsstring" where
  "cleanName rawName = (if endsWith rawName 0x23 then slice_0_m1 rawName else rawName)"

definition cleanTag :: "jsstring \<Rightarrow> jsstring" where
  "cleanTag rawTag = (if startsWith rawTag 0x23 then slice_1 rawTag else rawTag)"

text \<open>The template string \<^verbatim>\<open>`${cleanName}#${cleanTag}`\<close>.\<close>

definition identity :: "jsstring \<Rightarrow> jsstring \<Rightarrow> jsstring" where
  "identity rawName rawTag = cleanName rawName @ js ''#'' @ cleanTag rawTag"

text \<open>The test \<^verbatim>\<open>!rawName || !rawTag\<close> that makes the row callback return \<^verbatim>\<open>null\<close>.\<close>

definition rejected :: "row \<Rightarrow> bool" where
  "rejected r \<longleftrightarrow> raw_text (username r) = [] \<or> raw_text (discriminator r) = []"

definition team_of_index :: "nat \<Rightarrow> jsstring" where
  "team_of_index i = (if i < 5 then js ''Red'' else js ''Blue'')"

text \<open>
  The callback of \<^verbatim>\<open>rows.map\<close>: \<^verbatim>\<open>null\<close> (here \<open>None\<close>) for a rejected row, else the record.
  The fields of the object literal are evaluated in the order written, so the first absent
  numeric cell raises.
\<close>

definition row_callback :: "row \<Rightarrow> nat \<Rightarrow> error + player option" where
  "row_callback r i =
     (let rawName = raw_text (username r);
          rawTag = raw_text (discriminator r)
      in if rawName = [] \<or> rawTag = [] then Inr None
         else
           let nm = identity rawName rawTag;
               ag = or_str (map_option trim (agent_alt r)) (js ''?'');
               ti = (case rank_alt r of None \<Rightarrow> js ''?'' | Some a \<Rightarrow> a);
               cells = map trim (item_values r);
               tm = team_of_index i
           in thenE (toInt (index cells 2)) (\<lambda>v2.
              thenE (toInt (index cells 3)) (\<lambda>v3.
              thenE (toInt (index cells 4)) (\<lambda>v4.
              thenE (toInt (index cells 5)) (\<lambda>v5.
              thenE (toFloat (index cells 7)) (\<lambda>v7.
              thenE (toFloat (index cells 9)) (\<lambda>v9.
              thenE (toFloat (index cells 10)) (\<lambda>v10.
              thenE (toInt (index cells 12)) (\<lambda>v12.
              thenE (toInt (index cells 13)) (\<lambda>v13.
              thenE (toInt (index cells 14)) (\<lambda>v14.
                Inr (Some \<lparr>name = nm, agent = ag, team = tm, tier = ti,
                  score = v2, kills = v3, deaths = v4, assists = v5,
                  plus_minus = or_str (index cells 6) (js ''?''),
                  kd_ratio = v7,
                  dda = or_str (index cells 8) (js ''?''),
                  adr = v9, hs_pct = v10,
                  kast_pct = or_str (index cells 11) (js ''?''),
                  fk = v12, fd = v13, mk = v14\<rparr>))))))))))))"

text \<open>
  \<^verbatim>\<open>rows.map((row, index) => ...)\<close>: the callback sees each row with its index in \<open>rows\<close>;
  the call stops at the first raise.
\<close>

fun map_indexed :: "('a \<Rightarrow> nat \<Rightarrow> error + 'b) \<Rightarrow> nat \<Rightarrow> 'a list \<Rightarrow> error + 'b list" where
  "map_indexed f i [] = Inr []"
| "map_indexed f i (x # xs) =
     thenE (f x i) (\<lambda>y. thenE (map_indexed f (Suc i) xs) (\<lambda>ys. Inr (y # ys)))"

text \<open>\<^verbatim>\<open>.filter(p => p !== null)\<close>\<close>

fun filter_non_null :: "'a option list \<Rightarrow> 'a list" where
  "filter_non_null [] = []"
| "filter_non_null (None # ps) = filter_non_null ps"
| "filter_non_null (Some p # ps) = p # filter_non_null ps"

definition players_of :: "row list \<Rightarrow> error + player list" where
  "players_of rows = thenE (map_indexed row_callback 0 rows) (\<lambda>ps. Inr (filter_non_null ps))"

text \<open>
  \<^verbatim>\<open>parseInt(element?.textContent.trim()) || 0\<close>, with no radix. When the element is absent
  the argument is \<^verbatim>\<open>undefined\<close>, which \<^verbatim>\<open>parseInt\<close> reads as the string \<^verbatim>\<open>"undefined"\<close>.
\<close>

definition score_of :: "jsstring option \<Rightarrow> number" where
  "score_of el =
     or_zero (parseInt (case el of None \<Rightarrow> js ''undefined'' | Some t \<Rightarrow> trim t) 0)"

text \<open>
  The outcome: \<^verbatim>\<open>players.find\<close> returns the first record whose name is the target,
  \<^verbatim>\<open>player?.team || "Unknown"\<close> is its team, and \<open>won\<close> compares the two scores.
\<close>

definition user_team_of :: "player list \<Rightarrow> jsstring \<Rightarrow> jsstring" where
  "user_team_of ps targetRiotID =
     or_str (map_option team (find (\<lambda>p. name p = targetRiotID) ps)) (js ''Unknown'')"

definition won_of :: "player list \<Rightarrow> jsstring \<Rightarrow> number \<Rightarrow> number \<Rightarrow> bool" where
  "won_of ps targetRiotID redScore blueScore =
     (let user_team = user_team_of ps targetRiotID
      in if user_team = js ''Red'' then js_gt redScore blueScore
         else if user_team = js ''Blue'' then js_gt blueScore redScore
         else False)"

definition evaluate :: "document \<Rightarrow> jsstring \<Rightarrow> error + match_result" where
  "evaluate doc targetRiotID =
     (let labels = map trim (header_labels doc);
          vals = map trim (header_values doc);
          md = or_str (index labels 0) [];
          mapText = or_str (index vals 0) [];
          mp = map_of_text mapText
      in thenE (players_of (content_items doc)) (\<lambda>ps.
           let redScore = score_of (team1_value doc);
               blueScore = score_of (team2_value doc)
           in Inr \<lparr>map_name = mp, mode = md,
                team1_score = redScore, team2_score = blueScore,
                round_count = js_add redScore blueScore,
                won = won_of ps targetRiotID redScore blueScore,
                players = ps\<rparr>))"

text \<open>
  The copy of the script without a command-line target runs the same callback with the
  target fixed to the constant \<^verbatim>\<open>TARGET_RIOT_ID\<close>, a string of ten Hangul syllables around
  one \<^verbatim>\<open>#\<close>, written here by its code units.
\<close>

definition TARGET_RIOT_ID :: jsstring where
  "TARGET_RIOT_ID =
     [0xB728, 0xB974, 0xD750, 0xC9A4, 0xBBC8, 0xB974, 0xADF8, 0x23, 0xACA8, 0xC6B8, 0xBC24]"

definition evaluate_fixed :: "document \<Rightarrow> error + match_result" where
  "evaluate_fixed doc = evaluate doc TARGET_RIOT_ID"

subsection \<open>Sample inputs\<close>

text \<open>A well-formed scoreboard row with fifteen stat cells, and one with a cell text to choose.\<close>

definition sample_cells :: "jsstring list" where
  "sample_cells =
     [js ''1'', js ''Jett'', js ''250'', js ''20'', js ''15'', js ''5'', js ''+5'', js ''1.3'',
      js ''+12'', js ''150.5'', js ''25%'', js ''75%'', js ''3'', js ''2'', js ''1'']"

definition sample_row :: "string \<Rightarrow> string \<Rightarrow> row" where
  "sample_row n t =
     \<lparr>username = Some (js n), discriminator = Some (js t), agent_alt = Some (js ''Jett''),
      rank_alt = Some (js ''Gold 1''), item_values = sample_cells\<rparr>"

text \<open>A row without a username element.\<close>

definition nameless_row :: row where
  "nameless_row =
     \<lparr>username = None, discriminator = Some (js ''KR1''), agent_alt = None,
      rank_alt = None, item_values = sample_cells\<rparr>"

text \<open>
  A document whose first row has no username and whose other five rows are well formed;
  the header gives the map and the two scores.
\<close>

definition sample_doc :: document where
  "sample_doc =
     \<lparr>header_labels = [js ''Competitive''],
      header_values = [js '' Ascent '', js ''13'', js ''11''],
      content_items =
        [nameless_row, sample_row ''A'' ''1'', sample_row ''B'' ''2'', sample_row ''C'' ''3'',
         sample_row ''D'' ''4'', sample_row ''Nova'' ''KR1''],
      team1_value = Some (js ''13''), team2_value = Some (js ''11'')\<rparr>"

text \<open>
  A document with the same identity in its first and its sixth row, four rejected rows
  between them, and the scores 7 and 13.
\<close>

definition duel_doc :: document where
  "duel_doc =
     \<lparr>header_labels = [], header_values = [],
      content_items =
        [sample_row ''Foo#'' ''Bar'', nameless_row, nameless_row, nameless_row, nameless_row,
         sample_row ''Foo'' ''#Bar''],
      team1_value = Some (js ''7''), team2_value = Some (js ''13'')\<rparr>"

text \<open>A document with ten well-formed rows.\<close>

definition full_doc :: document where
  "full_doc =
     \<lparr>header_labels = [js ''Competitive''], header_values = [js ''Ascent''],
      content_items =
        [sample_row ''A'' ''1'', sample_row ''B'' ''2'', sample_row ''C'' ''3'',
         sample_row ''D'' ''4'', sample_row ''Nova'' ''KR1'', sample_row ''A'' ''2'',
         sample_row ''B'' ''3'', sample_row ''C'' ''4'', sample_row ''D'' ''1'',
         sample_row ''Nova'' ''1''],
      team1_value = Some (js ''13''), team2_value = Some (js ''11'')\<rparr>"

text \<open>A well-formed row that lacks its fifteenth stat cell, alone in a document.\<close>

definition short_row :: row where
  "short_row =
     \<lparr>username = Some (js ''Nova''), discriminator = Some (js ''KR1''),
      agent_alt = Some (js ''Jett''), rank_alt = Some (js ''Gold 1''),
      item_values = take 14 sample_cells\<rparr>"

definition short_doc :: document where
  "short_doc =
     \<lparr>header_labels = [js ''Competitive''], header_values = [js ''Ascent''],
      content_items = [short_row],
      team1_value = Some (js ''13''), team2_value = Some (js ''11'')\<rparr>"

text \<open>A well-formed row whose score cell reads \<^verbatim>\<open>-5\<close>, alone in a document.\<close>

definition negative_row :: row where
  "negative_row =
     \<lparr>username = Some (js ''Nova''), discriminator = Some (js ''KR1''),
      agent_alt = Some (js ''Jett''), rank_alt = Some (js ''Gold 1''),
      item_values = sample_cells[2 := js ''-5'']\<rparr>"

definition negative_doc :: document where
  "negative_doc =
     \<lparr>header_labels = [js ''Competitive''], header_values = [js ''Ascent''],
      content_items = [negative_row],
      team1_value = Some (js ''13''), team2_value = Some (js ''11'')\<rparr>"

text \<open>
  A document with one well-formed row whose two score elements read \<^verbatim>\<open>9007199254740992\<close>
  and \<^verbatim>\<open>1\<close>.
\<close>

definition big_doc :: document where
  "big_doc =
     \<lparr>header_labels = [js ''Competitive''], header_values = [js ''Ascent''],
      content_items = [sample_row ''Nova'' ''KR1''],
      team1_value = Some (js ''9007199254740992''), team2_value = Some (js ''1'')\<rparr>"

section \<open>Basic facts\<close>

subsection \<open>Numbers\<close>

text \<open>
  Rounding to a double leaves an integer below \<open>2^53\<close> as it is, keeps integers integral
  and keeps the sign.
\<close>

lemma bitlen_le: "n < 2 ^ j \<Longrightarrow> bitlen n \<le> j"
proof (induction j arbitrary: n)
  case 0
  then show ?case by (simp add: bitlen.simps)
next
  case (Suc j)
  show ?case
  proof (cases "n = 0")
    case True
    then show ?thesis by (simp add: bitlen.simps)
  next
    case False
    from Suc.prems have "n div 2 < 2 ^ j" by simp
    from Suc.IH [OF this] False show ?thesis
      by (subst bitlen.simps) simp
  qed
qed

lemma bitlen_1: "bitlen (Suc 0) = Suc 0"
  by (simp add: bitlen.simps)

lemma round_half_even_1: "round_half_even n (Suc 0) = n"
  by (simp add: round_half_even_def)

lemma nearest_double_small:
  assumes "n < 2 ^ 53"
  shows "nearest_double neg n (Suc 0) =
         (if n = 0 then (if neg then NegZero else Finite 0)
          else Finite (if neg then - of_nat n else of_nat n))"
proof -
  define e where "e = max (floor_log2 n (Suc 0) - 52) (- 1074)"
  have "floor_log2 n (Suc 0) \<le> int (bitlen n) - 1"
    by (simp add: floor_log2_def bitlen_1 Let_def)
  with bitlen_le [OF assms] have e: "e \<le> 0"
    by (simp add: e_def)
  have big: "rat_of_nat n < 2 ^ 1024"
  proof -
    have "n < 2 ^ 1024"
      using assms by (rule less_trans) simp
    then have "rat_of_nat n < rat_of_nat (2 ^ 1024)"
      by (simp only: of_nat_less_iff)
    then show ?thesis by simp
  qed
  show ?thesis
  proof (cases "e = 0")
    case True
    then show ?thesis
      using big unfolding nearest_double_def e_def [symmetric] Let_def
      by (simp add: round_half_even_1)
  next
    case False
    with e have "\<not> 0 \<le> e" by simp
    then show ?thesis
      using big unfolding nearest_double_def e_def [symmetric] Let_def
      by (simp add: round_half_even_1)
  qed
qed

lemma nearest_double_integral:
  assumes "nearest_double neg n (Suc 0) = Finite v"
  shows "v \<in> \<int>"
proof -
  define e where "e = max (floor_log2 n (Suc 0) - 52) (- 1074)"
  show ?thesis
  proof (cases "0 \<le> e")
    case True
    then show ?thesis
      using assms unfolding nearest_double_def e_def [symmetric] Let_def
      by (auto split: if_splits)
  next
    case False
    then show ?thesis
      using assms unfolding nearest_double_def e_def [symmetric] Let_def
      by (auto simp: round_half_even_1 split: if_splits)
  qed
qed

lemma nearest_double_nonneg: "is_nonneg (nearest_double False n d)"
  by (simp add: nearest_double_def Let_def)

lemma to_number_int:
  assumes "\<bar>z\<bar> < 2 ^ 53"
  shows "to_number (of_int z) = Finite (of_int z)"
proof -
  have "nat \<bar>z\<bar> < 2 ^ 53"
    using assms by (simp add: nat_less_iff)
  from nearest_double_small [OF this, of "z < 0"] show ?thesis
    by (auto simp: to_number_def)
qed

lemma js_gt_irrefl: "\<not> js_gt x x"
  by (cases x) simp_all

lemma or_zero_integral:
  assumes "or_zero x = Finite v" and "\<And>w. x = Finite w \<Longrightarrow> w \<in> \<int>"
  shows "v \<in> \<int>"
  using assms by (cases x) (auto simp: or_zero_def split: if_splits)

lemma parseInt_integral: "parseInt s R = Finite v \<Longrightarrow> v \<in> \<int>"
  by (auto simp: parseInt_def Let_def nearest_double_integral split: if_splits)

lemma parseInt_nonneg:
  assumes "parseInt s R \<noteq> NaN" and "\<not> startsWith (trimStart s) 0x2D"
  shows "is_nonneg (parseInt s R)"
  using assms by (auto simp: parseInt_def Let_def nearest_double_nonneg split: if_splits)

lemma or_zero_nonneg: "x = NaN \<or> is_nonneg x \<Longrightarrow> is_nonneg (or_zero x)"
  by (cases x) (auto simp: or_zero_def)

lemma or_zero_shape:
  "(\<exists>z. or_zero (parseInt s R) = Finite (of_int z)) \<or> or_zero (parseInt s R) = PosInfinity \<or>
   or_zero (parseInt s R) = NegInfinity"
proof (cases "parseInt s R")
  case (Finite v)
  from parseInt_integral [OF this] obtain z where "v = of_int z"
    by (auto elim: Ints_cases)
  with Finite show ?thesis by (auto simp: or_zero_def)
qed (simp_all add: or_zero_def)

lemma score_of_integral: "score_of el = Finite v \<Longrightarrow> v \<in> \<int>"
  unfolding score_of_def by (rule or_zero_integral) (auto dest: parseInt_integral)

subsection \<open>The callback\<close>

lemma thenE_Inr_iff: "thenE m f = Inr y \<longleftrightarrow> (\<exists>x. m = Inr x \<and> f x = Inr y)"
  by (cases m) (simp_all add: thenE_def)

lemma row_callback_rejected: "rejected r \<Longrightarrow> row_callback r i = Inr None"
  by (simp add: row_callback_def rejected_def)

lemma row_callback_None_iff: "row_callback r i = Inr None \<longleftrightarrow> rejected r"
  by (auto simp: row_callback_def rejected_def Let_def thenE_Inr_iff split: if_splits)

lemma row_callback_Some:
  assumes "row_callback r i = Inr (Some p)"
  shows "\<not> rejected r"
    and "name p = identity (raw_text (username r)) (raw_text (discriminator r))"
    and "team p = team_of_index i"
  using assms
  by (auto simp: row_callback_def rejected_def Let_def thenE_Inr_iff split: if_splits)

lemma row_callback_total:
  assumes "\<not> rejected r" and "15 \<le> length (item_values r)"
  shows "\<exists>p. row_callback r i = Inr (Some p)"
proof -
  have "15 \<le> length (map trim (item_values r))"
    using assms(2) by simp
  then show ?thesis
    using assms(1)
    by (simp add: row_callback_def rejected_def Let_def toInt_def toFloat_def index_def
        thenE_def)
qed

text \<open>
  Whatever a surviving record takes from its row and the row's index, the list of records
  takes from the rows that are not rejected, in their order, each with its index in the
  whole row list.
\<close>

lemma survivors_gen:
  assumes gh: "\<And>r i p. row_callback r i = Inr (Some p) \<Longrightarrow> g p = h i r"
    and run: "map_indexed row_callback i rows = Inr ys"
  shows "map g (filter_non_null ys) =
         map (\<lambda>(j, r). h j r) (filter (\<lambda>(j, r). \<not> rejected r) (enumerate i rows))"
  using run
proof (induction rows arbitrary: i ys)
  case Nil
  then show ?case by simp
next
  case (Cons r rows)
  from Cons.prems obtain y ys' where y: "row_callback r i = Inr y"
    and ys': "map_indexed row_callback (Suc i) rows = Inr ys'" and ys: "ys = y # ys'"
    by (auto simp: thenE_Inr_iff)
  note IH = Cons.IH [OF ys']
  show ?case
  proof (cases y)
    case None
    with y have "rejected r" by (simp add: row_callback_None_iff)
    with None ys IH show ?thesis by simp
  next
    case (Some p)
    with y have "\<not> rejected r" "g p = h i r"
      using row_callback_Some(1) gh by blast+
    with Some ys IH show ?thesis by simp
  qed
qed

lemma filter_enumerate_snd:
  "map snd (filter (\<lambda>(j, r). P r) (enumerate i rows)) = filter P rows"
  by (induction rows arbitrary: i) auto

lemma map_indexed_total:
  assumes "\<forall>r \<in> set rows. rejected r \<or> 15 \<le> length (item_values r)"
  shows "\<exists>ys. map_indexed row_callback i rows = Inr ys"
  using assms
proof (induction rows arbitrary: i)
  case Nil
  then show ?case by simp
next
  case (Cons r rows)
  then obtain ys where ys: "map_indexed row_callback (Suc i) rows = Inr ys"
    by auto
  from Cons.prems have "rejected r \<or> 15 \<le> length (item_values r)"
    by simp
  then obtain y where "row_callback r i = Inr y"
    using row_callback_rejected row_callback_total by (cases "rejected r") blast+
  with ys show ?case by (simp add: thenE_def)
qed

lemma players_of_total:
  assumes "\<forall>r \<in> set rows. rejected r \<or> 15 \<le> length (item_values r)"
  shows "\<exists>ps. players_of rows = Inr ps"
  using map_indexed_total [OF assms, of 0] by (auto simp: players_of_def thenE_def)

lemma players_of_survivors:
  assumes gh: "\<And>r i p. row_callback r i = Inr (Some p) \<Longrightarrow> g p = h i r"
    and run: "players_of rows = Inr ps"
  shows "map g ps =
         map (\<lambda>(j, r). h j r) (filter (\<lambda>(j, r). \<not> rejected r) (enumerate 0 rows))"
proof -
  from run obtain ys where ys: "map_indexed row_callback 0 rows = Inr ys"
    and ps: "ps = filter_non_null ys"
    by (auto simp: players_of_def thenE_Inr_iff)
  show ?thesis
    unfolding ps using gh ys by (rule survivors_gen)
qed

lemma evaluate_Inr:
  assumes "evaluate doc targetRiotID = Inr res"
  shows "players_of (content_items doc) = Inr (players res)"
    and "map_name res = map_of_text (or_str (index (map trim (header_values doc)) 0) [])"
    and "team1_score res = score_of (team1_value doc)"
    and "team2_score res = score_of (team2_value doc)"
    and "round_count res = js_add (score_of (team1_value doc)) (score_of (team2_value doc))"
    and "won res = won_of (players res) targetRiotID (team1_score res) (team2_score res)"
  using assms by (auto simp: evaluate_def Let_def thenE_Inr_iff)

lemma evaluate_total:
  assumes "\<forall>r \<in> set (content_items doc). rejected r \<or> 15 \<le> length (item_values r)"
  shows "\<exists>res. evaluate doc targetRiotID = Inr res"
  using players_of_total [OF assms] by (auto simp: evaluate_def Let_def thenE_def)


lemma js_teams:
  "js ''Red'' \<noteq> js ''Blue''" "js ''Unknown'' \<noteq> js ''Red''" "js ''Unknown'' \<noteq> js ''Blue''"
  "js ''Red'' \<noteq> []" "js ''Blue'' \<noteq> []"
  by (simp_all add: js_def)

lemma won_of_iff:
  "won_of ps t a b \<longleftrightarrow>
     (\<exists>p. find (\<lambda>p. name p = t) ps = Some p \<and>
          (team p = js ''Red'' \<and> js_gt a b \<or> team p = js ''Blue'' \<and> js_gt b a))"
proof (cases "find (\<lambda>p. name p = t) ps")
  case None
  then show ?thesis
    using js_teams by (simp add: won_of_def user_team_of_def or_str_def Let_def)
next
  case (Some p)
  then show ?thesis
    using js_teams by (auto simp: won_of_def user_team_of_def or_str_def Let_def)
qed

lemma survivors_sorted:
  "sorted_wrt (\<lambda>x y. fst x < fst y) (filter P (enumerate i rows))"
proof -
  have "sorted_wrt (<) (map fst (enumerate i rows))"
    by (simp add: sorted_wrt_upt del: map_fst_enumerate add: map_fst_enumerate)
  then have "sorted_wrt (\<lambda>x y. fst x < fst y) (enumerate i rows)"
    by (simp only: sorted_wrt_map)
  then show ?thesis
    by (rule sorted_wrt_filter)
qed

lemma players_teams:
  assumes "players_of rows = Inr ps"
  shows "map team ps =
         map (\<lambda>(j, r). team_of_index j) (filter (\<lambda>(j, r). \<not> rejected r) (enumerate 0 rows))"
  using players_of_survivors [where g = team and h = "\<lambda>i r. team_of_index i", OF _ assms]
    row_callback_Some(3) by simp

lemma players_names:
  assumes "players_of rows = Inr ps"
  shows "map name ps =
         map (\<lambda>r. identity (raw_text (username r)) (raw_text (discriminator r)))
           (filter (\<lambda>r. \<not> rejected r) rows)"
proof -
  let ?h = "\<lambda>r. identity (raw_text (username r)) (raw_text (discriminator r))"
  have "map name ps =
        map (\<lambda>(j, r). ?h r) (filter (\<lambda>(j, r). \<not> rejected r) (enumerate 0 rows))"
    using players_of_survivors [where g = name and h = "\<lambda>i. ?h", OF _ assms]
      row_callback_Some(2) by simp
  also have "\<dots> = map ?h (map snd (filter (\<lambda>(j, r). \<not> rejected r) (enumerate 0 rows)))"
    by (simp add: case_prod_unfold)
  finally show ?thesis
    by (simp only: filter_enumerate_snd)
qed

lemma cleanName_conv:
  "s \<noteq> [] \<Longrightarrow> cleanName s = (if last s = 0x23 then butlast s else s)"
  by (simp add: cleanName_def endsWith_def slice_0_m1_def butlast_conv_take)

lemma cleanTag_conv:
  "s \<noteq> [] \<Longrightarrow> cleanTag s = (if hd s = 0x23 then tl s else s)"
  by (simp add: cleanTag_def startsWith_def slice_1_def drop_Suc)

text \<open>
  When the callback raises: exactly when some row passes the name and tag test and has fewer
  than fifteen stat cells.
\<close>

lemma error_is_TypeError: "(e :: error) = TypeError"
  by (cases e) simp

lemma row_callback_raises:
  assumes "\<not> rejected r" and "length (item_values r) < 15"
  shows "row_callback r i = Inl TypeError"
proof -
  have "\<exists>e. row_callback r i = Inl e"
  proof (cases "row_callback r i")
    case (Inl e)
    then show ?thesis by simp
  next
    case (Inr y)
    show ?thesis
    proof (cases y)
      case None
      with Inr assms(1) show ?thesis by (simp add: row_callback_None_iff)
    next
      case (Some p)
      with Inr have "row_callback r i = Inr (Some p)" by simp
      then have "\<exists>v. toInt (index (map trim (item_values r)) 14) = Inr v"
        by (auto simp: row_callback_def Let_def thenE_Inr_iff split: if_splits)
      with assms(2) show ?thesis
        by (simp add: toInt_def index_def)
    qed
  qed
  then show ?thesis
    using error_is_TypeError by metis
qed

lemma map_indexed_raises:
  assumes "\<exists>r \<in> set rows. \<not> rejected r \<and> length (item_values r) < 15"
  shows "map_indexed row_callback i rows = Inl TypeError"
  using assms
proof (induction rows arbitrary: i)
  case Nil
  then show ?case by simp
next
  case (Cons r rows)
  show ?case
  proof (cases "row_callback r i")
    case (Inl e)
    then show ?thesis
      using error_is_TypeError [of e] by (simp add: thenE_def)
  next
    case (Inr y)
    then have "\<not> (\<not> rejected r \<and> length (item_values r) < 15)"
      using row_callback_raises [of r i] by auto
    with Cons.prems have "\<exists>r \<in> set rows. \<not> rejected r \<and> length (item_values r) < 15"
      by auto
    from Cons.IH [OF this, of "Suc i"] Inr show ?thesis
      by (simp add: thenE_def)
  qed
qed

lemma evaluate_raises_iff:
  "evaluate doc targetRiotID = Inl e \<longleftrightarrow>
     (\<exists>r \<in> set (content_items doc). \<not> rejected r \<and> length (item_values r) < 15)"
proof
  assume l: "evaluate doc targetRiotID = Inl e"
  show "\<exists>r \<in> set (content_items doc). \<not> rejected r \<and> length (item_values r) < 15"
  proof (rule ccontr)
    assume "\<not> ?thesis"
    then have "\<forall>r \<in> set (content_items doc). rejected r \<or> 15 \<le> length (item_values r)"
      by (auto simp: not_less)
    from evaluate_total [OF this, of targetRiotID] l show False by auto
  qed
next
  assume "\<exists>r \<in> set (content_items doc). \<not> rejected r \<and> length (item_values r) < 15"
  from map_indexed_raises [OF this, of 0] show "evaluate doc targetRiotID = Inl e"
    using error_is_TypeError [of e] by (simp add: evaluate_def players_of_def thenE_def Let_def)
qed

text \<open>The integer fields of a record, and where its record came from.\<close>

lemma toInt_index_Inr:
  assumes "toInt (index cells k) = Inr v"
  shows "k < length cells" and "v = or_zero (parseInt (strip_marks (cells ! k)) 10)"
  using assms by (auto simp: toInt_def index_def split: if_splits)

lemma row_callback_ints:
  assumes "row_callback r i = Inr (Some p)"
  shows "toInt (index (map trim (item_values r)) 2) = Inr (score p)"
    and "toInt (index (map trim (item_values r)) 3) = Inr (kills p)"
    and "toInt (index (map trim (item_values r)) 4) = Inr (deaths p)"
    and "toInt (index (map trim (item_values r)) 5) = Inr (assists p)"
    and "toInt (index (map trim (item_values r)) 12) = Inr (fk p)"
    and "toInt (index (map trim (item_values r)) 13) = Inr (fd p)"
    and "toInt (index (map trim (item_values r)) 14) = Inr (mk p)"
  using assms
  by (auto simp: row_callback_def Let_def thenE_Inr_iff split: if_splits)

lemma int_cell:
  assumes "toInt (index (map trim cells) k) = Inr v"
  shows "k < length cells \<and>
         (let text = strip_marks (trim (cells ! k))
          in v = or_zero (parseInt text 10) \<and>
             (parseInt text 10 = NaN \<longrightarrow> v = Finite 0) \<and>
             (\<not> startsWith (trimStart text) 0x2D \<longrightarrow> is_nonneg v) \<and>
             ((\<exists>z. v = Finite (of_int z)) \<or> v = PosInfinity \<or> v = NegInfinity))"
proof -
  let ?text = "strip_marks (trim (cells ! k))"
  from toInt_index_Inr [OF assms] have k: "k < length cells"
    and v: "v = or_zero (parseInt ?text 10)"
    by simp_all
  have "v = Finite 0" if "parseInt ?text 10 = NaN"
    using that v by (simp add: or_zero_def)
  moreover have "is_nonneg v" if "\<not> startsWith (trimStart ?text) 0x2D"
    unfolding v using parseInt_nonneg [OF _ that, of 10] by (intro or_zero_nonneg) blast
  moreover have "(\<exists>z. v = Finite (of_int z)) \<or> v = PosInfinity \<or> v = NegInfinity"
    unfolding v by (rule or_zero_shape)
  ultimately show ?thesis
    using k v by (simp add: Let_def)
qed

lemma players_from_rows:
  assumes "map_indexed row_callback i rows = Inr ys" and "p \<in> set (filter_non_null ys)"
  shows "\<exists>r \<in> set rows. \<exists>j. row_callback r j = Inr (Some p)"
  using assms
proof (induction rows arbitrary: i ys)
  case Nil
  then show ?case by simp
next
  case (Cons r rows)
  from Cons.prems(1) obtain y ys' where y: "row_callback r i = Inr y"
    and ys': "map_indexed row_callback (Suc i) rows = Inr ys'" and ys: "ys = y # ys'"
    by (auto simp: thenE_Inr_iff)
  show ?case
  proof (cases "y = Some p")
    case True
    with y show ?thesis by auto
  next
    case False
    with Cons.prems(2) ys have "p \<in> set (filter_non_null ys')"
      by (cases y) auto
    from Cons.IH [OF ys' this] show ?thesis by auto
  qed
qed

subsection \<open>The sample inputs\<close>

lemma raw_text_simps: "raw_text None = []" "raw_text (Some s) = trim s"
  by (simp_all add: raw_text_def or_str_def)

lemma js_nonempty: "js (c # cs) \<noteq> []"
  by (simp add: js_def)

lemma rejected_nameless_row: "rejected nameless_row"
  by (simp add: rejected_def nameless_row_def raw_text_simps)

lemma rejected_sample_row:
  "rejected (sample_row n t) \<longleftrightarrow> trim (js n) = [] \<or> trim (js t) = []"
  by (simp add: rejected_def sample_row_def raw_text_simps)

lemma length_sample_row: "length (item_values (sample_row n t)) = 15"
  by (simp add: sample_row_def sample_cells_def)

lemma trims:
  "trim (js ''A'') = js ''A''" "trim (js ''B'') = js ''B''" "trim (js ''C'') = js ''C''"
  "trim (js ''D'') = js ''D''" "trim (js ''Nova'') = js ''Nova''"
  "trim (js ''1'') = js ''1''" "trim (js ''2'') = js ''2''" "trim (js ''3'') = js ''3''"
  "trim (js ''4'') = js ''4''" "trim (js ''KR1'') = js ''KR1''"
  by (simp_all add: trim_def js_def is_ws_def)

lemma sample_doc_rows_ok:
  "\<forall>r \<in> set (content_items sample_doc). rejected r \<or> 15 \<le> length (item_values r)"
  by (simp add: sample_doc_def rejected_nameless_row length_sample_row)

lemma sample_doc_survivors:
  "filter (\<lambda>(j, r). \<not> rejected r) (enumerate 0 (content_items sample_doc)) =
     [(1, sample_row ''A'' ''1''), (2, sample_row ''B'' ''2''), (3, sample_row ''C'' ''3''),
      (4, sample_row ''D'' ''4''), (5, sample_row ''Nova'' ''KR1'')]"
  by (simp add: sample_doc_def rejected_nameless_row rejected_sample_row trims js_nonempty)

lemma score_of_13: "score_of (Some (js ''13'')) = Finite 13"
proof -
  have "parseInt (trim (js ''13'')) 0 = nearest_double False 13 1"
    by (simp add: parseInt_def, simp add: js_def trim_def is_ws_def trimStart_def
        startsWith_def is_radix_digit_def digit_value_def digits_value_def)
  then show ?thesis
    by (simp add: score_of_def nearest_double_small or_zero_def)
qed

lemma score_of_11: "score_of (Some (js ''11'')) = Finite 11"
proof -
  have "parseInt (trim (js ''11'')) 0 = nearest_double False 11 1"
    by (simp add: parseInt_def, simp add: js_def trim_def is_ws_def trimStart_def
        startsWith_def is_radix_digit_def digit_value_def digits_value_def)
  then show ?thesis
    by (simp add: score_of_def nearest_double_small or_zero_def)
qed

lemma duel_doc_rows_ok:
  "\<forall>r \<in> set (content_items duel_doc). rejected r \<or> 15 \<le> length (item_values r)"
  by (simp add: duel_doc_def rejected_nameless_row length_sample_row)

lemma duel_trims:
  "trim (js ''Foo#'') = js ''Foo#''" "trim (js ''Bar'') = js ''Bar''"
  "trim (js ''Foo'') = js ''Foo''" "trim (js ''#Bar'') = js ''#Bar''"
  by (simp_all add: trim_def js_def is_ws_def)

lemma duel_doc_survivors:
  "filter (\<lambda>(j, r). \<not> rejected r) (enumerate 0 (content_items duel_doc)) =
     [(0, sample_row ''Foo#'' ''Bar''), (5, sample_row ''Foo'' ''#Bar'')]"
  by (simp add: duel_doc_def rejected_nameless_row rejected_sample_row duel_trims js_nonempty)

lemma raw_sample_row:
  "raw_text (username (sample_row n t)) = trim (js n)"
  "raw_text (discriminator (sample_row n t)) = trim (js t)"
  by (simp_all add: sample_row_def raw_text_simps)

lemma duel_identities:
  "identity (js ''Foo#'') (js ''Bar'') = js ''Foo#Bar''"
  "identity (js ''Foo'') (js ''#Bar'') = js ''Foo#Bar''"
  "identity (js ''Foo#'') (js ''#Bar'') = js ''Foo#Bar''"
  by (simp_all add: identity_def cleanName_def cleanTag_def endsWith_def startsWith_def
      slice_0_m1_def slice_1_def js_def)

lemma score_of_7: "score_of (Some (js ''7'')) = Finite 7"
proof -
  have "parseInt (trim (js ''7'')) 0 = nearest_double False 7 1"
    by (simp add: parseInt_def, simp add: js_def trim_def is_ws_def trimStart_def
        startsWith_def is_radix_digit_def digit_value_def digits_value_def)
  then show ?thesis
    by (simp add: score_of_def nearest_double_small or_zero_def)
qed

lemma duel_doc_result:
  assumes res: "evaluate duel_doc (js ''Foo#Bar'') = Inr res"
  shows "map name (players res) = [js ''Foo#Bar'', js ''Foo#Bar'']"
    and "map team (players res) = [js ''Red'', js ''Blue'']"
    and "team1_score res = Finite 7" and "team2_score res = Finite 13"
    and "\<not> won res"
proof -
  note ps = evaluate_Inr(1) [OF res]
  show n: "map name (players res) = [js ''Foo#Bar'', js ''Foo#Bar'']"
    using players_of_survivors [where g = name
        and h = "\<lambda>i r. identity (raw_text (username r)) (raw_text (discriminator r))", OF _ ps]
      row_callback_Some(2)
    by (simp add: duel_doc_survivors raw_sample_row duel_trims duel_identities)
  show t: "map team (players res) = [js ''Red'', js ''Blue'']"
    using players_of_survivors [where g = team and h = "\<lambda>i r. team_of_index i", OF _ ps]
      row_callback_Some(3)
    by (simp add: duel_doc_survivors team_of_index_def)
  show s: "team1_score res = Finite 7" "team2_score res = Finite 13"
    using evaluate_Inr(3,4) [OF res] by (simp_all add: duel_doc_def score_of_7 score_of_13)
  from n obtain p q where pq: "players res = [p, q]"
    by (auto simp: map_eq_Cons_conv)
  with n t have "name p = js ''Foo#Bar''" "team p = js ''Red''" by simp_all
  then show "\<not> won res"
    using evaluate_Inr(6) [OF res] s pq js_teams by (simp add: won_of_iff)
qed

lemma sample_doc_teams:
  assumes "evaluate sample_doc t = Inr res"
  shows "map team (players res) = [js ''Red'', js ''Red'', js ''Red'', js ''Red'', js ''Blue'']"
  using players_teams [OF evaluate_Inr(1) [OF assms]]
  by (simp add: sample_doc_survivors team_of_index_def)

lemma full_doc_rows_ok:
  "\<forall>r \<in> set (content_items full_doc). rejected r \<or> 15 \<le> length (item_values r)"
  by (simp add: full_doc_def length_sample_row)

lemma sample_row_emitted:
  "\<exists>p. row_callback (sample_row n t) i = Inr (Some p)" if "trim (js n) \<noteq> []" "trim (js t) \<noteq> []"
  using that row_callback_total [of "sample_row n t" i]
  by (simp add: rejected_sample_row length_sample_row)

lemma short_row_facts: "\<not> rejected short_row" "length (item_values short_row) = 14"
  by (simp_all add: rejected_def short_row_def raw_text_simps trims js_nonempty sample_cells_def)

lemma parseFloat_not_available: "parseFloat (js ''N/A'') = NaN"
proof -
  have t: "trimStart (js ''N/A'') = js ''N/A''"
    by (simp add: trimStart_def js_def is_ws_def)
  have st: "\<not> startsWith (js ''N/A'') 0x2D" "\<not> startsWith (js ''N/A'') 0x2B"
    "\<not> startsWith (js ''N/A'') 0x2E"
    by (simp_all add: startsWith_def js_def)
  have d: "takeWhile is_digit (js ''N/A'') = []" "dropWhile is_digit (js ''N/A'') = js ''N/A''"
    by (simp_all add: is_digit_def js_def)
  have i: "take 8 (js ''N/A'') \<noteq> js ''Infinity''"
    by (simp add: js_def)
  show ?thesis
    unfolding parseFloat_def t Let_def by (simp only: st d i if_False if_True simp_thms)
qed

lemma not_available:
  "toInt (Some (js ''N/A'')) = Inr (Finite 0)" "toFloat (Some (js ''N/A'')) = Inr (Finite 0)"
proof -
  have s: "strip_marks (js ''N/A'') = js ''N/A''"
    by (simp add: strip_marks_def js_def)
  show "toInt (Some (js ''N/A'')) = Inr (Finite 0)"
    by (simp add: toInt_def s parseInt_def, simp add: js_def trimStart_def is_ws_def
        startsWith_def is_radix_digit_def digit_value_def or_zero_def)
  show "toFloat (Some (js ''N/A'')) = Inr (Finite 0)"
    by (simp add: toFloat_def s parseFloat_not_available or_zero_def)
qed

lemma negative_row_facts:
  "\<not> rejected negative_row" "length (item_values negative_row) = 15"
  "item_values negative_row ! 2 = js ''-5''" "item_values negative_row ! 3 = js ''20''"
  by (simp_all add: rejected_def negative_row_def raw_text_simps trims js_nonempty
      sample_cells_def)

lemma negative_doc_result:
  "\<exists>res p. evaluate negative_doc (js ''Nova#KR1'') = Inr res \<and> players res = [p] \<and>
            row_callback negative_row 0 = Inr (Some p)"
proof -
  obtain p where p: "row_callback negative_row 0 = Inr (Some p)"
    using row_callback_total [of negative_row 0] negative_row_facts by auto
  then have ps: "players_of [negative_row] = Inr [p]"
    by (simp add: players_of_def thenE_def)
  have "\<forall>r \<in> set (content_items negative_doc). rejected r \<or> 15 \<le> length (item_values r)"
    by (simp add: negative_doc_def negative_row_facts)
  from evaluate_total [OF this] obtain res
    where res: "evaluate negative_doc (js ''Nova#KR1'') = Inr res"
    by blast
  from evaluate_Inr(1) [OF res] ps have "players res = [p]"
    by (simp add: negative_doc_def)
  with res p show ?thesis by blast
qed

lemma parse_samples:
  "parseInt (strip_marks (trim (js ''-5''))) 10 = Finite (- 5)"
  "parseInt (strip_marks (trim (js ''20''))) 10 = Finite 20"
  "\<not> startsWith (trimStart (strip_marks (trim (js ''20'')))) 0x2D"
proof -
  have t: "strip_marks (trim (js ''-5'')) = js ''-5''" "strip_marks (trim (js ''20'')) = js ''20''"
    by (simp_all add: strip_marks_def trim_def is_ws_def js_def)
  have "parseInt (js ''-5'') 10 = nearest_double True 5 1"
    by (simp add: parseInt_def, simp add: js_def trimStart_def is_ws_def startsWith_def
        is_radix_digit_def digit_value_def digits_value_def)
  then show "parseInt (strip_marks (trim (js ''-5''))) 10 = Finite (- 5)"
    unfolding t by (simp add: nearest_double_small)
  have "parseInt (js ''20'') 10 = nearest_double False 20 1"
    by (simp add: parseInt_def, simp add: js_def trimStart_def is_ws_def startsWith_def
        is_radix_digit_def digit_value_def digits_value_def)
  then show "parseInt (strip_marks (trim (js ''20''))) 10 = Finite 20"
    unfolding t by (simp add: nearest_double_small)
  show "\<not> startsWith (trimStart (strip_marks (trim (js ''20'')))) 0x2D"
    unfolding t by (simp add: js_def trimStart_def is_ws_def startsWith_def)
qed

lemma big_doc_rows_ok:
  "\<forall>r \<in> set (content_items big_doc). rejected r \<or> 15 \<le> length (item_values r)"
  by (simp add: big_doc_def length_sample_row)

lemma bitlen_big:
  "bitlen 9007199254740992 = 54" "bitlen 9007199254740993 = 54"
  by (simp_all add: bitlen.simps)

lemma nearest_double_big:
  "nearest_double False 9007199254740992 (Suc 0) = Finite 9007199254740992"
  "nearest_double False 9007199254740993 (Suc 0) = Finite 9007199254740992"
  by (simp_all add: nearest_double_def floor_log2_def round_half_even_def bitlen_big
      bitlen_1 Let_def)

lemma big_scores:
  "score_of (Some (js ''9007199254740992'')) = Finite 9007199254740992"
  "score_of (Some (js ''1'')) = Finite 1"
proof -
  have "parseInt (trim (js ''9007199254740992'')) 0 = nearest_double False 9007199254740992 1"
    by (simp add: parseInt_def, simp add: js_def trim_def is_ws_def trimStart_def
        startsWith_def is_radix_digit_def digit_value_def digits_value_def)
  then show "score_of (Some (js ''9007199254740992'')) = Finite 9007199254740992"
    by (simp add: score_of_def nearest_double_big or_zero_def)
  have "parseInt (trim (js ''1'')) 0 = nearest_double False 1 1"
    by (simp add: parseInt_def, simp add: js_def trim_def is_ws_def trimStart_def
        startsWith_def is_radix_digit_def digit_value_def digits_value_def)
  then show "score_of (Some (js ''1'')) = Finite 1"
    by (simp add: score_of_def nearest_double_small or_zero_def)
qed

lemma big_sum: "to_number 9007199254740993 = Finite 9007199254740992"
proof -
  have "to_number 9007199254740993 = nearest_double False 9007199254740993 (Suc 0)"
    by (simp add: to_number_def)
  then show ?thesis
    by (simp add: nearest_double_big)
qed

text \<open>A cell of sixteen digits just above \<open>2^53\<close> is read as the nearest double.\<close>

lemma toInt_rounds:
  "toInt (Some (js ''9007199254740993'')) = Inr (Finite 9007199254740992)"
proof -
  have "parseInt (strip_marks (js ''9007199254740993'')) 10 =
      nearest_double False 9007199254740993 1"
    by (simp add: parseInt_def strip_marks_def, simp add: js_def trimStart_def is_ws_def
        startsWith_def is_radix_digit_def digit_value_def digits_value_def)
  then show ?thesis
    by (simp add: toInt_def nearest_double_big or_zero_def)
qed

section \<open>The claims\<close>

subsection \<open>C8: the round count\<close>

text \<open>
  C8 as stated makes \<open>round_count\<close> the exact sum of the two scores. The callback adds them
  as doubles. In \<open>big_doc\<close> the scores read \<^verbatim>\<open>9007199254740992\<close>, which is \<open>2^53\<close>, and \<^verbatim>\<open>1\<close>;
  the exact sum \<open>2^53 + 1\<close> is no double and \<open>round_count\<close> is \<open>2^53\<close>, the first score.
\<close>

theorem round_count_rounds_counterexample:
  "map_sum id (\<lambda>res. (team1_score res, team2_score res, round_count res))
     (evaluate big_doc (js ''Nova#KR1'')) =
   Inr (Finite 9007199254740992, Finite 1, Finite 9007199254740992)"
proof -
  obtain res where res: "evaluate big_doc (js ''Nova#KR1'') = Inr res"
    using evaluate_total [OF big_doc_rows_ok] by blast
  have "team1_score res = Finite 9007199254740992" "team2_score res = Finite 1"
    using evaluate_Inr(3,4) [OF res] by (simp_all add: big_doc_def big_scores)
  moreover from this have "round_count res = Finite 9007199254740992"
    using evaluate_Inr(3,4,5) [OF res] by (simp add: big_sum)
  ultimately show ?thesis
    by (simp add: res)
qed

text \<open>
  C8, amended. In every emitted match result, \<open>round_count\<close> is the sum of \<open>team1_score\<close> and
  \<open>team2_score\<close> as JavaScript adds two numbers, that is the double nearest to their exact sum
  (and \<^verbatim>\<open>NaN\<close> for two opposite infinities); it equals the exact sum whenever both scores are
  finite and the exact sum is below \<open>2^53\<close> in magnitude. The callback computes it from the
  two parsed scores and from nothing else.
\<close>

theorem round_count_is_double_sum:
  assumes "evaluate doc targetRiotID = Inr res"
  shows "round_count res = js_add (team1_score res) (team2_score res) \<and>
         (\<forall>a b. team1_score res = Finite a \<and> team2_score res = Finite b \<and> \<bar>a + b\<bar> < 2 ^ 53
            \<longrightarrow> round_count res = Finite (a + b))"
proof -
  note r = evaluate_Inr(3,4,5) [OF assms]
  have sum: "round_count res = js_add (team1_score res) (team2_score res)"
    by (simp add: r)
  have "round_count res = Finite (a + b)"
    if a: "team1_score res = Finite a" and b: "team2_score res = Finite b"
      and small: "\<bar>a + b\<bar> < 2 ^ 53" for a b
  proof -
    from a b r have "a \<in> \<int>" "b \<in> \<int>"
      by (auto dest: score_of_integral)
    then obtain z where z: "a + b = of_int z"
      by (metis Ints_add Ints_cases)
    with small have "\<bar>z\<bar> < 2 ^ 53"
      by (metis of_int_abs of_int_less_numeral_power_cancel_iff)
    from to_number_int [OF this] z show ?thesis
      by (simp add: sum a b)
  qed
  with sum show ?thesis by blast
qed

theorem round_count_is_double_sum_witness:
  "\<exists>res. evaluate sample_doc (js ''Nova#KR1'') = Inr res \<and>
     team1_score res = Finite 13 \<and> team2_score res = Finite 11 \<and>
     round_count res = Finite 24"
proof -
  obtain res where res: "evaluate sample_doc (js ''Nova#KR1'') = Inr res"
    using evaluate_total [OF sample_doc_rows_ok] by blast
  have s: "team1_score res = Finite 13" "team2_score res = Finite 11"
    using evaluate_Inr(3,4) [OF res] by (simp_all add: sample_doc_def score_of_13 score_of_11)
  have "round_count res = Finite 24"
    using round_count_is_double_sum [OF res, THEN conjunct2] s by simp
  with res s show ?thesis by simp
qed

subsection \<open>C3: the outcome\<close>

text \<open>
  C3 as stated makes \<open>won\<close> true as soon as some record named like the target sits on the
  team with the higher score. The callback looks at one record only, the first one with the
  target's name (\<^verbatim>\<open>players.find\<close>). In \<open>duel_doc\<close> the target's name occurs on both teams;
  the second occurrence is on Blue, which leads 13 to 7, and \<open>won\<close> is false.
\<close>

theorem won_some_match_counterexample:
  "map_sum id (\<lambda>res. (won res, map name (players res), map team (players res),
                      team1_score res, team2_score res))
     (evaluate duel_doc (js ''Foo#Bar'')) =
   Inr (False, [js ''Foo#Bar'', js ''Foo#Bar''], [js ''Red'', js ''Blue''],
        Finite 7, Finite 13)"
proof -
  obtain res where res: "evaluate duel_doc (js ''Foo#Bar'') = Inr res"
    using evaluate_total [OF duel_doc_rows_ok] by blast
  show ?thesis
    using duel_doc_result [OF res] by (simp add: res)
qed

text \<open>
  C3, amended. In every emitted match result, \<open>won\<close> is true if and only if there is a
  record named exactly like the target and the first such record, in sequence order, is on
  the team whose score strictly exceeds the other team's. When no record matches, and when
  the two scores are equal, \<open>won\<close> is false. The outcome is computed by total comparisons: it
  adds no way to raise.
\<close>

theorem won_first_match:
  assumes "evaluate doc targetRiotID = Inr res"
  shows "(won res \<longleftrightarrow>
           (\<exists>p. find (\<lambda>p. name p = targetRiotID) (players res) = Some p \<and>
              (team p = js ''Red'' \<and> js_gt (team1_score res) (team2_score res) \<or>
               team p = js ''Blue'' \<and> js_gt (team2_score res) (team1_score res)))) \<and>
         (targetRiotID \<notin> set (map name (players res)) \<longrightarrow> \<not> won res) \<and>
         (team1_score res = team2_score res \<longrightarrow> \<not> won res)"
proof -
  have w: "won res = won_of (players res) targetRiotID (team1_score res) (team2_score res)"
    using evaluate_Inr(6) [OF assms] .
  have "find (\<lambda>p. name p = targetRiotID) (players res) = None"
    if "targetRiotID \<notin> set (map name (players res))"
    using that by (auto simp: find_None_iff)
  then show ?thesis
    unfolding w won_of_iff using js_gt_irrefl by auto
qed

theorem won_first_match_witness:
  "\<exists>res. evaluate duel_doc (js ''Foo#Bar'') = Inr res \<and> \<not> won res \<and>
     map team (filter (\<lambda>p. name p = js ''Foo#Bar'') (players res)) = [js ''Red'', js ''Blue'']"
proof -
  obtain res where res: "evaluate duel_doc (js ''Foo#Bar'') = Inr res"
    using evaluate_total [OF duel_doc_rows_ok] by blast
  from duel_doc_result(1) [OF res] obtain p q where pq: "players res = [p, q]"
    by (auto simp: map_eq_Cons_conv)
  with duel_doc_result(1,2) [OF res]
  have f: "find (\<lambda>p. name p = js ''Foo#Bar'') (players res) = Some p"
    and t: "team p = js ''Red''" "team q = js ''Blue''"
    and n: "name p = js ''Foo#Bar''" "name q = js ''Foo#Bar''"
    by simp_all
  have "\<not> won res"
    using won_first_match [OF res] f t duel_doc_result(3,4) [OF res] js_teams by simp
  with res pq t n show ?thesis by simp
qed

subsection \<open>C1: the team of a record\<close>

text \<open>
  C1 as stated gives team Red to the first five surviving records. The callback decides the
  team inside \<^verbatim>\<open>rows.map\<close>, before the filter, from the row's index among all rows. In
  \<open>sample_doc\<close> the first of six rows is rejected: five records survive, and the fifth comes
  from row 5 and is Blue.
\<close>

theorem fifth_survivor_blue_counterexample:
  "map_sum id (\<lambda>res. (length (content_items sample_doc), map team (players res)))
     (evaluate sample_doc (js ''Nova#KR1'')) =
   Inr (6, [js ''Red'', js ''Red'', js ''Red'', js ''Red'', js ''Blue''])"
proof -
  obtain res where res: "evaluate sample_doc (js ''Nova#KR1'') = Inr res"
    using evaluate_total [OF sample_doc_rows_ok] by blast
  have "length (content_items sample_doc) = 6"
    by (simp add: sample_doc_def)
  with sample_doc_teams [OF res] show ?thesis
    by (simp add: res)
qed

text \<open>
  C1, amended. Each surviving record's team is assigned by the index of its row in the whole
  row sequence, rejected rows counted: a record from one of the rows 0 to 4 is Red and a
  record from a later row is Blue.
\<close>

theorem team_by_source_index:
  assumes "evaluate doc targetRiotID = Inr res"
  shows "map team (players res) =
         map (\<lambda>(j, r). if j < 5 then js ''Red'' else js ''Blue'')
           (filter (\<lambda>(j, r). \<not> rejected r) (enumerate 0 (content_items doc)))"
  using players_teams [OF evaluate_Inr(1) [OF assms]] by (simp add: team_of_index_def)

theorem team_by_source_index_witness:
  "\<exists>res. evaluate full_doc (js ''Nova#KR1'') = Inr res \<and>
     map team (players res) =
       [js ''Red'', js ''Red'', js ''Red'', js ''Red'', js ''Red'',
        js ''Blue'', js ''Blue'', js ''Blue'', js ''Blue'', js ''Blue'']"
proof -
  obtain res where res: "evaluate full_doc (js ''Nova#KR1'') = Inr res"
    using evaluate_total [OF full_doc_rows_ok] by blast
  have "map team (players res) =
       [js ''Red'', js ''Red'', js ''Red'', js ''Red'', js ''Red'',
        js ''Blue'', js ''Blue'', js ''Blue'', js ''Blue'', js ''Blue'']"
    using team_by_source_index [OF res]
    by (simp add: full_doc_def rejected_sample_row trims js_nonempty)
  with res show ?thesis by simp
qed

subsection \<open>C10: Red before Blue\<close>

text \<open>
  C10. In every emitted players sequence, every record with team Red precedes every record
  with team Blue.
\<close>

theorem red_before_blue:
  assumes res: "evaluate doc targetRiotID = Inr res"
    and a: "a < length (players res)" and b: "b < length (players res)"
    and ta: "team (players res ! a) = js ''Red''"
    and tb: "team (players res ! b) = js ''Blue''"
  shows "a < b"
proof (rule ccontr)
  assume "\<not> a < b"
  define S where "S = filter (\<lambda>(j, r). \<not> rejected r) (enumerate 0 (content_items doc))"
  have teams: "map team (players res) = map (\<lambda>(j, r). team_of_index j) S"
    unfolding S_def by (rule players_teams [OF evaluate_Inr(1) [OF res]])
  then have len: "length S = length (players res)"
    by (metis length_map)
  have nth: "team (players res ! k) = team_of_index (fst (S ! k))" if "k < length (players res)" for k
  proof -
    have "team (players res ! k) = map team (players res) ! k"
      using that by simp
    also have "\<dots> = team_of_index (fst (S ! k))"
      using that len by (simp add: teams case_prod_unfold)
    finally show ?thesis .
  qed
  from ta nth [OF a] have ia: "fst (S ! a) < 5"
    using js_teams(1) by (auto simp: team_of_index_def split: if_splits)
  from tb nth [OF b] have ib: "\<not> fst (S ! b) < 5"
    using js_teams(1) by (auto simp: team_of_index_def split: if_splits)
  from ia ib have "a \<noteq> b" by auto
  with \<open>\<not> a < b\<close> have "b < a" by simp
  moreover have "sorted_wrt (\<lambda>x y. fst x < fst y) S"
    unfolding S_def by (rule survivors_sorted)
  moreover have "a < length S"
    using a len by simp
  ultimately have "fst (S ! b) < fst (S ! a)"
    using sorted_wrt_nth_less [of "\<lambda>x y. fst x < fst y" S b a] by simp
  with ia ib show False by simp
qed

theorem red_before_blue_witness:
  "\<exists>res. evaluate sample_doc (js ''Nova#KR1'') = Inr res \<and>
     team (players res ! 3) = js ''Red'' \<and> team (players res ! 4) = js ''Blue'' \<and>
     (3::nat) < 4"
proof -
  obtain res where res: "evaluate sample_doc (js ''Nova#KR1'') = Inr res"
    using evaluate_total [OF sample_doc_rows_ok] by blast
  note teams = sample_doc_teams [OF res]
  have len: "length (players res) = 5"
    using arg_cong [OF teams, of length] by simp
  have "team (players res ! 3) = map team (players res) ! 3"
    "team (players res ! 4) = map team (players res) ! 4"
    using len by simp_all
  then have t: "team (players res ! 3) = js ''Red''" "team (players res ! 4) = js ''Blue''"
    by (simp_all add: teams)
  have "(3::nat) < 4"
    using red_before_blue [OF res _ _ t] len by simp
  with res t show ?thesis by simp
qed

subsection \<open>C4: rejected rows\<close>

text \<open>
  C4. A row whose trimmed name or trimmed tag is empty (or missing) yields no record: the
  players sequence is shorter than the row sequence by exactly the number of such rows, and
  its names are those of the other rows, in order. The sequence is a list of records, so it
  holds no null entry.
\<close>

theorem rejected_rows_absent:
  assumes "evaluate doc targetRiotID = Inr res"
  shows "length (players res) =
           length (content_items doc) -
           length (filter (\<lambda>r. raw_text (username r) = [] \<or> raw_text (discriminator r) = [])
                     (content_items doc)) \<and>
         map name (players res) =
           map (\<lambda>r. identity (raw_text (username r)) (raw_text (discriminator r)))
             (filter (\<lambda>r. raw_text (username r) \<noteq> [] \<and> raw_text (discriminator r) \<noteq> [])
                (content_items doc))"
proof -
  let ?rows = "content_items doc"
  have rej: "(\<lambda>r. raw_text (username r) = [] \<or> raw_text (discriminator r) = []) = rejected"
    by (simp add: rejected_def fun_eq_iff)
  have acc: "(\<lambda>r. raw_text (username r) \<noteq> [] \<and> raw_text (discriminator r) \<noteq> []) =
      (\<lambda>r. \<not> rejected r)"
    by (simp add: rejected_def fun_eq_iff)
  have n: "map name (players res) =
        map (\<lambda>r. identity (raw_text (username r)) (raw_text (discriminator r)))
          (filter (\<lambda>r. \<not> rejected r) ?rows)"
    by (rule players_names [OF evaluate_Inr(1) [OF assms]])
  have "length (players res) = length (map name (players res))"
    by simp
  also have "\<dots> = length (filter (\<lambda>r. \<not> rejected r) ?rows)"
    by (simp only: n length_map)
  finally have "length (players res) = length (filter (\<lambda>r. \<not> rejected r) ?rows)" .
  moreover have "length (filter rejected ?rows) + length (filter (\<lambda>r. \<not> rejected r) ?rows)
      = length ?rows"
    by (rule sum_length_filter_compl)
  ultimately have l: "length (players res) = length ?rows - length (filter rejected ?rows)"
    by simp
  from l n show ?thesis
    unfolding rej acc by (rule conjI)
qed

theorem rejected_rows_absent_witness:
  "\<exists>res. evaluate sample_doc (js ''Nova#KR1'') = Inr res \<and>
     length (content_items sample_doc) = 6 \<and>
     length (players res) = 5 \<and>
     map name (players res) = [js ''A#1'', js ''B#2'', js ''C#3'', js ''D#4'', js ''Nova#KR1'']"
proof -
  obtain res where res: "evaluate sample_doc (js ''Nova#KR1'') = Inr res"
    using evaluate_total [OF sample_doc_rows_ok] by blast
  have rows: "content_items sample_doc =
      [nameless_row, sample_row ''A'' ''1'', sample_row ''B'' ''2'', sample_row ''C'' ''3'',
       sample_row ''D'' ''4'', sample_row ''Nova'' ''KR1'']"
    by (simp add: sample_doc_def)
  have ids: "identity (js ''A'') (js ''1'') = js ''A#1''"
    "identity (js ''B'') (js ''2'') = js ''B#2''"
    "identity (js ''C'') (js ''3'') = js ''C#3''"
    "identity (js ''D'') (js ''4'') = js ''D#4''"
    "identity (js ''Nova'') (js ''KR1'') = js ''Nova#KR1''"
    by (simp_all add: identity_def cleanName_def cleanTag_def endsWith_def startsWith_def
        slice_0_m1_def slice_1_def js_def)
  have "map name (players res) = [js ''A#1'', js ''B#2'', js ''C#3'', js ''D#4'', js ''Nova#KR1'']"
    and "length (players res) = 5"
    using rejected_rows_absent [OF res]
    by (simp_all add: rows nameless_row_def raw_text_simps raw_sample_row trims js_nonempty ids)
  with res rows show ?thesis by simp
qed

subsection \<open>C6: the map\<close>

text \<open>
  C6. The map of the result is the candidate string itself when the candidate is one of the
  twelve known map names, compared code unit by code unit, and is \<^verbatim>\<open>"Unknown"\<close> otherwise.
  The candidate is the trimmed text of the first header value, or the empty string when
  there is none.
\<close>

theorem map_whitelist:
  assumes "evaluate doc targetRiotID = Inr res"
    and "mapText = or_str (index (map trim (header_values doc)) 0) []"
  shows "map_name res =
         (if mapText \<in> {js ''Ascent'', js ''Bind'', js ''Breeze'', js ''Fracture'', js ''Haven'',
                         js ''Icebox'', js ''Lotus'', js ''Pearl'', js ''Split'', js ''Sunset'',
                         js ''Deadlock'', js ''Abyss''}
          then mapText else js ''Unknown'')"
  using evaluate_Inr(2) [OF assms(1)] assms(2)
  by (simp add: map_of_text_def knownMaps_def)

theorem map_whitelist_witness:
  "\<exists>res. evaluate sample_doc (js ''Nova#KR1'') = Inr res \<and> map_name res = js ''Ascent''"
proof -
  obtain res where res: "evaluate sample_doc (js ''Nova#KR1'') = Inr res"
    using evaluate_total [OF sample_doc_rows_ok] by blast
  have t: "trim (js '' Ascent '') = js ''Ascent''"
    by (simp add: trim_def js_def is_ws_def)
  have c: "or_str (index (map trim (header_values sample_doc)) 0) [] = js ''Ascent''"
    by (simp add: sample_doc_def index_def or_str_def t js_nonempty)
  have "map_name res = js ''Ascent''"
    using map_whitelist [OF res c [symmetric]] by simp
  with res show ?thesis by simp
qed

subsection \<open>C7: the identity of an accepted row\<close>

text \<open>
  C7. For every accepted row the identity is the raw name without one trailing \<^verbatim>\<open>#\<close>, then
  one \<^verbatim>\<open>#\<close>, then the raw tag without one leading \<^verbatim>\<open>#\<close>; both raw strings are non-empty.
  The raw name \<^verbatim>\<open>"Foo#"\<close> with the raw tag \<^verbatim>\<open>"#Bar"\<close> gives \<^verbatim>\<open>"Foo#Bar"\<close>.
\<close>

theorem identity_one_hash:
  assumes "row_callback r i = Inr (Some p)"
    and "rawName = raw_text (username r)" and "rawTag = raw_text (discriminator r)"
  shows "rawName \<noteq> [] \<and> rawTag \<noteq> [] \<and>
         name p = (if last rawName = 0x23 then butlast rawName else rawName) @ js ''#'' @
                  (if hd rawTag = 0x23 then tl rawTag else rawTag) \<and>
         identity (js ''Foo#'') (js ''#Bar'') = js ''Foo#Bar''"
proof -
  from row_callback_Some(1) [OF assms(1)] have ne: "rawName \<noteq> []" "rawTag \<noteq> []"
    by (simp_all add: rejected_def assms(2,3))
  have "name p = identity rawName rawTag"
    using row_callback_Some(2) [OF assms(1)] by (simp add: assms(2,3))
  with ne have "name p = (if last rawName = 0x23 then butlast rawName else rawName) @ js ''#'' @
                  (if hd rawTag = 0x23 then tl rawTag else rawTag)"
    by (simp add: identity_def cleanName_conv cleanTag_conv)
  with ne duel_identities(3) show ?thesis
    by (intro conjI)
qed

theorem identity_one_hash_witness:
  "\<exists>p. row_callback (sample_row ''Foo#'' ''#Bar'') 0 = Inr (Some p) \<and> name p = js ''Foo#Bar''"
proof -
  obtain p where p: "row_callback (sample_row ''Foo#'' ''#Bar'') 0 = Inr (Some p)"
    using sample_row_emitted [of "''Foo#''" "''#Bar''" 0] by (auto simp: duel_trims js_nonempty)
  have raw: "js ''Foo#'' = raw_text (username (sample_row ''Foo#'' ''#Bar''))"
    "js ''#Bar'' = raw_text (discriminator (sample_row ''Foo#'' ''#Bar''))"
    by (simp_all add: raw_sample_row duel_trims)
  have "name p = js ''Foo#Bar''"
    using identity_one_hash [OF p raw] by (simp add: js_def)
  with p show ?thesis by blast
qed

subsection \<open>C9: a name or tag that is only a hash sign\<close>

text \<open>
  C9. The validity test reads the raw trimmed name and tag, before the hash signs are
  stripped. A row whose raw name is exactly \<^verbatim>\<open>"#"\<close> and whose raw tag is not empty is not
  rejected: the callback does not return null for it, it returns a record whenever the row
  has its fifteen cells, and the identity of that record is \<^verbatim>\<open>#\<close> followed by the cleaned
  tag, with an empty name component. The same holds with name and tag exchanged.
\<close>

theorem lone_hash_survives:
  assumes "rawName = raw_text (username r)" and "rawTag = raw_text (discriminator r)"
  shows "(rawName = js ''#'' \<and> rawTag \<noteq> [] \<longrightarrow>
            \<not> rejected r \<and> row_callback r i \<noteq> Inr None \<and> cleanName rawName = [] \<and>
            (15 \<le> length (item_values r) \<longrightarrow> (\<exists>p. row_callback r i = Inr (Some p))) \<and>
            (\<forall>p. row_callback r i = Inr (Some p) \<longrightarrow> name p = js ''#'' @ cleanTag rawTag)) \<and>
         (rawTag = js ''#'' \<and> rawName \<noteq> [] \<longrightarrow>
            \<not> rejected r \<and> row_callback r i \<noteq> Inr None \<and> cleanTag rawTag = [] \<and>
            (15 \<le> length (item_values r) \<longrightarrow> (\<exists>p. row_callback r i = Inr (Some p))) \<and>
            (\<forall>p. row_callback r i = Inr (Some p) \<longrightarrow> name p = cleanName rawName @ js ''#''))"
proof -
  have hash: "cleanName (js ''#'') = []" "cleanTag (js ''#'') = []" "js ''#'' \<noteq> []"
    by (simp_all add: cleanName_def cleanTag_def endsWith_def startsWith_def slice_0_m1_def
        slice_1_def js_def)
  have acc: "\<not> rejected r \<and> row_callback r i \<noteq> Inr None \<and>
      (15 \<le> length (item_values r) \<longrightarrow> (\<exists>p. row_callback r i = Inr (Some p))) \<and>
      (\<forall>p. row_callback r i = Inr (Some p) \<longrightarrow> name p = cleanName rawName @ js ''#'' @ cleanTag rawTag)"
    if "rawName \<noteq> []" "rawTag \<noteq> []"
  proof -
    from that have nr: "\<not> rejected r"
      by (simp add: rejected_def assms)
    then have "row_callback r i \<noteq> Inr None"
      by (simp add: row_callback_None_iff)
    moreover have "name p = cleanName rawName @ js ''#'' @ cleanTag rawTag"
      if "row_callback r i = Inr (Some p)" for p
      using row_callback_Some(2) [OF that] by (simp add: assms identity_def)
    ultimately show ?thesis
      using nr row_callback_total [OF nr, of i] by blast
  qed
  show ?thesis
    using acc hash by auto
qed

theorem lone_hash_survives_witness:
  "(\<exists>p. row_callback (sample_row ''#'' ''Bar'') 0 = Inr (Some p) \<and> name p = js ''#Bar'') \<and>
   (\<exists>p. row_callback (sample_row ''Foo'' ''#'') 0 = Inr (Some p) \<and> name p = js ''Foo#'')"
proof -
  have t: "trim (js ''#'') = js ''#''"
    by (simp add: trim_def js_def is_ws_def)
  have c: "cleanTag (js ''Bar'') = js ''Bar''" "cleanName (js ''Foo'') = js ''Foo''"
    by (simp_all add: cleanName_def cleanTag_def endsWith_def startsWith_def js_def)
  have a: "js ''#'' @ js ''Bar'' = js ''#Bar''" "js ''Foo'' @ js ''#'' = js ''Foo#''"
    by (simp_all add: js_def)
  have "\<exists>p. row_callback (sample_row ''#'' ''Bar'') 0 = Inr (Some p) \<and> name p = js ''#Bar''"
    using lone_hash_survives [of "js ''#''" "sample_row ''#'' ''Bar''" "js ''Bar''" 0]
    by (simp add: raw_sample_row t duel_trims js_nonempty length_sample_row c a) blast
  moreover
  have "\<exists>p. row_callback (sample_row ''Foo'' ''#'') 0 = Inr (Some p) \<and> name p = js ''Foo#''"
    using lone_hash_survives [of "js ''Foo''" "sample_row ''Foo'' ''#''" "js ''#''" 0]
    by (simp add: raw_sample_row t duel_trims js_nonempty length_sample_row c a) blast
  ultimately show ?thesis by (rule conjI)
qed

subsection \<open>C2: the cell parsers on an absent cell\<close>

text \<open>
  C2. The claim is that parsing a stat cell never raises and gives 0 for an absent cell and
  for a text without a number. For a text such as \<^verbatim>\<open>N/A\<close> both parsers give 0. For an absent
  cell they raise: \<open>short_row\<close> has fourteen cells, so \<^verbatim>\<open>cells[14]\<close> is undefined,
  \<^verbatim>\<open>toInt\<close> calls \<^verbatim>\<open>replace\<close> on it, and the raise leaves the row callback and the whole
  extraction. The string fields beside them (\<^verbatim>\<open>cells[6] || "?"\<close>) do take an absent cell.
\<close>

theorem absent_cell_raises:
  "toInt (Some (js ''N/A'')) = Inr (Finite 0) \<and>
   toFloat (Some (js ''N/A'')) = Inr (Finite 0) \<and>
   toInt None = Inl TypeError \<and> toFloat None = Inl TypeError \<and>
   length (item_values short_row) = 14 \<and>
   toInt (index (map trim (item_values short_row)) 14) = Inl TypeError \<and>
   row_callback short_row 0 = Inl TypeError \<and>
   evaluate short_doc (js ''Nova#KR1'') = Inl TypeError"
proof -
  have "toInt None = Inl TypeError" "toFloat None = Inl TypeError"
    by (simp_all add: toInt_def toFloat_def)
  moreover have "toInt (index (map trim (item_values short_row)) 14) = Inl TypeError"
    by (simp add: toInt_def index_def short_row_facts)
  moreover have "row_callback short_row 0 = Inl TypeError"
    using short_row_facts by (simp add: row_callback_raises)
  moreover have "evaluate short_doc (js ''Nova#KR1'') = Inl TypeError"
    using short_row_facts by (simp add: evaluate_raises_iff short_doc_def)
  ultimately show ?thesis
    using not_available short_row_facts(2) by (intro conjI)
qed

subsection \<open>C5: the integer fields\<close>

text \<open>
  C5 as stated makes every integer field non-negative. The parsers remove plus signs, commas
  and percent signs and keep a minus sign, which \<^verbatim>\<open>parseInt\<close> reads: the score cell \<^verbatim>\<open>-5\<close>
  gives the score \<open>-5\<close>.
\<close>

theorem negative_score_counterexample:
  "map_sum id (\<lambda>res. map score (players res)) (evaluate negative_doc (js ''Nova#KR1'')) =
   Inr [Finite (- 5)]"
proof -
  from negative_doc_result obtain res p
    where res: "evaluate negative_doc (js ''Nova#KR1'') = Inr res"
      and ps: "players res = [p]" and p: "row_callback negative_row 0 = Inr (Some p)"
    by blast
  from toInt_index_Inr(2) [OF row_callback_ints(1) [OF p]] have "score p = Finite (- 5)"
    by (simp add: negative_row_facts parse_samples or_zero_def)
  with res ps show ?thesis by simp
qed

text \<open>
  C5, amended. Every emitted record comes from a row that has the cells 2, 3, 4, 5, 12, 13
  and 14, and each of the fields score, kills, deaths, assists, fk, fd and mk is the number
  that \<^verbatim>\<open>parseInt\<close> reads, in base 10, from the trimmed text of its cell without plus signs,
  commas and percent signs, and 0 when it reads none. The field is an integer or, for
  digits beyond the range of a double, an infinity. It is non-negative whenever that text,
  after leading white space, does not start with a minus sign.
\<close>

theorem int_fields:
  assumes "evaluate doc targetRiotID = Inr res" and "p \<in> set (players res)"
  shows "\<exists>r \<in> set (content_items doc).
           \<forall>(f, k) \<in> set [(score, 2), (kills, 3), (deaths, 4), (assists, 5),
                           (fk, 12), (fd, 13), (mk, 14)].
             k < length (item_values r) \<and>
             (let text = strip_marks (trim (item_values r ! k))
              in f p = or_zero (parseInt text 10) \<and>
                 (parseInt text 10 = NaN \<longrightarrow> f p = Finite 0) \<and>
                 (\<not> startsWith (trimStart text) 0x2D \<longrightarrow> is_nonneg (f p)) \<and>
                 ((\<exists>z. f p = Finite (of_int z)) \<or> f p = PosInfinity \<or> f p = NegInfinity))"
proof -
  from evaluate_Inr(1) [OF assms(1)] obtain ys
    where ys: "map_indexed row_callback 0 (content_items doc) = Inr ys"
      and ps: "players res = filter_non_null ys"
    by (auto simp: players_of_def thenE_Inr_iff)
  from assms(2) ps have "p \<in> set (filter_non_null ys)"
    by simp
  from players_from_rows [OF ys this] obtain r j
    where r: "r \<in> set (content_items doc)" and p: "row_callback r j = Inr (Some p)"
    by blast
  note ints = row_callback_ints [OF p]
  have "\<forall>(f, k) \<in> set [(score, 2), (kills, 3), (deaths, 4), (assists, 5),
                           (fk, 12), (fd, 13), (mk, 14)].
             k < length (item_values r) \<and>
             (let text = strip_marks (trim (item_values r ! k))
              in f p = or_zero (parseInt text 10) \<and>
                 (parseInt text 10 = NaN \<longrightarrow> f p = Finite 0) \<and>
                 (\<not> startsWith (trimStart text) 0x2D \<longrightarrow> is_nonneg (f p)) \<and>
                 ((\<exists>z. f p = Finite (of_int z)) \<or> f p = PosInfinity \<or> f p = NegInfinity))"
    using int_cell [OF ints(1)] int_cell [OF ints(2)] int_cell [OF ints(3)]
      int_cell [OF ints(4)] int_cell [OF ints(5)] int_cell [OF ints(6)] int_cell [OF ints(7)]
    by simp
  with r show ?thesis by blast
qed

theorem int_fields_witness:
  "\<exists>res p. evaluate negative_doc (js ''Nova#KR1'') = Inr res \<and> players res = [p] \<and>
     kills p = Finite 20 \<and> is_nonneg (kills p)"
proof -
  from negative_doc_result obtain res p
    where res: "evaluate negative_doc (js ''Nova#KR1'') = Inr res"
      and ps: "players res = [p]"
    by blast
  have "p \<in> set (players res)"
    by (simp add: ps)
  from int_fields [OF res this] have "kills p = Finite 20 \<and> is_nonneg (kills p)"
    by (simp add: negative_doc_def negative_row_facts parse_samples or_zero_def)
  with res ps show ?thesis by blast
qed

end
